theory Spec2Isabelle
  imports Complex_Main
begin

section \<open>JavaScript strings\<close>

text \<open>
  A JavaScript string is modelled as a \<^typ>\<open>string\<close>; each \<^typ>\<open>char\<close> is read as one
  code unit below 256 (ASCII and Latin-1).  Strings with code units from 256 on are outside the
  model.  The character classes below are those of ECMAScript restricted to that range.
\<close>

definition white_space :: "char list" where
  "white_space = [CHR 0x09, CHR 0x0A, CHR 0x0B, CHR 0x0C, CHR 0x0D, CHR 0x20, CHR 0xA0]"

definition is_space :: "char \<Rightarrow> bool" where
  \<comment> \<open>the regular expression class \<open>\s\<close>, also what \<open>trim\<close> and \<open>Number\<close> strip\<close>
  "is_space c = (c \<in> set white_space)"

definition word_chars :: "char list" where
  "word_chars =
     ''abcdefghijklmnopqrstuvwxyz'' @ ''ABCDEFGHIJKLMNOPQRSTUVWXYZ'' @ ''0123456789'' @ ''_''"

definition is_word :: "char \<Rightarrow> bool" where
  \<comment> \<open>the regular expression class \<open>\w\<close> (no \<open>i\<close> or \<open>u\<close> flag: ASCII only)\<close>
  "is_word c = (c \<in> set word_chars)"

definition upper_chars :: "char list" where
  "upper_chars = ''ABCDEFGHIJKLMNOPQRSTUVWXYZ'' @
     [CHR 0xC0, CHR 0xC1, CHR 0xC2, CHR 0xC3, CHR 0xC4, CHR 0xC5, CHR 0xC6, CHR 0xC7,
      CHR 0xC8, CHR 0xC9, CHR 0xCA, CHR 0xCB, CHR 0xCC, CHR 0xCD, CHR 0xCE, CHR 0xCF,
      CHR 0xD0, CHR 0xD1, CHR 0xD2, CHR 0xD3, CHR 0xD4, CHR 0xD5, CHR 0xD6,
      CHR 0xD8, CHR 0xD9, CHR 0xDA, CHR 0xDB, CHR 0xDC, CHR 0xDD, CHR 0xDE]"

definition lower_chars :: "char list" where
  "lower_chars = ''abcdefghijklmnopqrstuvwxyz'' @
     [CHR 0xE0, CHR 0xE1, CHR 0xE2, CHR 0xE3, CHR 0xE4, CHR 0xE5, CHR 0xE6, CHR 0xE7,
      CHR 0xE8, CHR 0xE9, CHR 0xEA, CHR 0xEB, CHR 0xEC, CHR 0xED, CHR 0xEE, CHR 0xEF,
      CHR 0xF0, CHR 0xF1, CHR 0xF2, CHR 0xF3, CHR 0xF4, CHR 0xF5, CHR 0xF6,
      CHR 0xF8, CHR 0xF9, CHR 0xFA, CHR 0xFB, CHR 0xFC, CHR 0xFD, CHR 0xFE]"

definition lower_char :: "char \<Rightarrow> char" where
  "lower_char c = (case map_of (zip upper_chars lower_chars) c of Some d \<Rightarrow> d | None \<Rightarrow> c)"

definition toLowerCase :: "string \<Rightarrow> string" where
  "toLowerCase s = map lower_char s"

definition trim :: "string \<Rightarrow> string" where
  "trim s = rev (dropWhile is_space (rev (dropWhile is_space s)))"

fun startsWith :: "string \<Rightarrow> string \<Rightarrow> bool" where
  "startsWith s [] = True"
| "startsWith [] (c # t) = False"
| "startsWith (d # s) (c # t) = (d = c \<and> startsWith s t)"

fun js_includes :: "string \<Rightarrow> string \<Rightarrow> bool" where
  \<comment> \<open>\<open>s.includes(t)\<close>: \<open>t\<close> occurs in \<open>s\<close> as a contiguous substring\<close>
  "js_includes [] t = (t = [])"
| "js_includes (d # s) t = (startsWith (d # s) t \<or> js_includes s t)"

fun replace_runs :: "bool \<Rightarrow> string \<Rightarrow> string" where
  \<comment> \<open>\<open>s.replace(/\s+/g, ' ')\<close>; the flag says that the previous character was white space\<close>
  "replace_runs prev [] = []"
| "replace_runs prev (c # s) =
     (if is_space c then (if prev then replace_runs True s else CHR '' '' # replace_runs True s)
      else c # replace_runs False s)"

fun split_runs :: "bool \<Rightarrow> string \<Rightarrow> string \<Rightarrow> string list" where
  \<comment> \<open>\<open>s.split(/\s+/)\<close>; \<open>cur\<close> is the token read so far\<close>
  "split_runs prev cur [] = [cur]"
| "split_runs prev cur (c # s) =
     (if is_space c then (if prev then split_runs True cur s else cur # split_runs True [] s)
      else split_runs False (cur @ [c]) s)"

definition split_space :: "string \<Rightarrow> string list" where
  "split_space s = split_runs False [] s"

fun join :: "string \<Rightarrow> string list \<Rightarrow> string" where
  "join sep [] = []"
| "join sep [x] = x"
| "join sep (x # y # xs) = x @ sep @ join sep (y # xs)"

section \<open>JavaScript numbers and \<open>Number(string)\<close>\<close>

text \<open>
  A number is \<open>NaN\<close>, an infinity or a finite value.  Finite values are exact rationals: the
  rounding of a numeric literal to the nearest double is not modelled, so that a literal
  beyond the range of the doubles stays finite where JavaScript yields \<open>Infinity\<close>, a tiny one
  stays different from 0, and two long literals that round to the same double stay
  different.  \<open>-0\<close> is \<open>0\<close> (the two are equal under \<open>===\<close>, and both are falsy).  A number
  that arrives in a JSON response is finite, hence a \<^typ>\<open>rat\<close>.  The properties below
  speak of \<open>Number(key)\<close> as a whole and do not rest on its value.
\<close>

datatype jsnum = NaN | Num rat | PosInfinity | NegInfinity

fun isNaN :: "jsnum \<Rightarrow> bool" where
  "isNaN NaN = True"
| "isNaN n = False"

fun negate :: "jsnum \<Rightarrow> jsnum" where
  "negate NaN = NaN"
| "negate (Num r) = Num (- r)"
| "negate PosInfinity = NegInfinity"
| "negate NegInfinity = PosInfinity"

definition digit_table :: "(char \<times> nat) list" where
  "digit_table =
     zip ''0123456789abcdef'' [0, 1, 2, 3, 4, 5, 6, 7, 8, 9, 10, 11, 12, 13, 14, 15] @
     zip ''ABCDEF'' [10, 11, 12, 13, 14, 15]"

definition digit_of :: "nat \<Rightarrow> char \<Rightarrow> nat option" where
  \<comment> \<open>the value of a digit of the given radix\<close>
  "digit_of radix c =
     (case map_of digit_table c of
        Some d \<Rightarrow> if d < radix then Some d else None
      | None \<Rightarrow> None)"

definition is_digit :: "nat \<Rightarrow> char \<Rightarrow> bool" where
  "is_digit radix c = (digit_of radix c \<noteq> None)"

definition digits_value :: "nat \<Rightarrow> string \<Rightarrow> nat" where
  "digits_value radix s = foldl (\<lambda>a c. radix * a + (case digit_of radix c of Some d \<Rightarrow> d | None \<Rightarrow> 0)) 0 s"

definition scale :: "nat \<Rightarrow> int \<Rightarrow> rat" where
  \<comment> \<open>\<open>m\<close> times ten to the power \<open>e\<close>\<close>
  "scale m e = (if 0 \<le> e then of_nat m * 10 ^ nat e else of_nat m / 10 ^ nat (- e))"

definition exponent_part :: "string \<Rightarrow> int option" where
  \<comment> \<open>what follows the mantissa: nothing, or \<open>e\<close>/\<open>E\<close>, an optional sign and digits\<close>
  "exponent_part s =
     (case s of
        [] \<Rightarrow> Some 0
      | c # t \<Rightarrow>
          if c = CHR ''e'' \<or> c = CHR ''E'' then
            (let neg = (t \<noteq> [] \<and> hd t = CHR ''-'');
                 ds = (if t \<noteq> [] \<and> (hd t = CHR ''-'' \<or> hd t = CHR ''+'') then tl t else t)
             in if ds \<noteq> [] \<and> list_all (is_digit 10) ds
                then Some (if neg then - int (digits_value 10 ds) else int (digits_value 10 ds))
                else None)
          else None)"

definition unsigned_decimal :: "string \<Rightarrow> jsnum" where
  \<comment> \<open>StrUnsignedDecimalLiteral: \<open>Infinity\<close>, \<open>12\<close>, \<open>12.\<close>, \<open>12.5\<close>, \<open>.5\<close>, each with an
      optional exponent\<close>
  "unsigned_decimal s =
     (if s = ''Infinity'' then PosInfinity
      else
        let ip = takeWhile (is_digit 10) s;
            r1 = dropWhile (is_digit 10) s;
            dot = (r1 \<noteq> [] \<and> hd r1 = CHR ''.'');
            fp = (if dot then takeWhile (is_digit 10) (tl r1) else []);
            r2 = (if dot then dropWhile (is_digit 10) (tl r1) else r1)
        in if ip = [] \<and> fp = [] then NaN
           else (case exponent_part r2 of
                   None \<Rightarrow> NaN
                 | Some e \<Rightarrow> Num (scale (digits_value 10 (ip @ fp)) (e - int (length fp)))))"

definition radix_literal :: "nat \<Rightarrow> string \<Rightarrow> jsnum" where
  \<comment> \<open>the digits of a \<open>0x\<close>, \<open>0o\<close> or \<open>0b\<close> literal\<close>
  "radix_literal radix ds =
     (if ds \<noteq> [] \<and> list_all (is_digit radix) ds then Num (of_nat (digits_value radix ds)) else NaN)"

definition str_numeric_literal :: "string \<Rightarrow> jsnum" where
  "str_numeric_literal s =
     (if startsWith s ''0x'' \<or> startsWith s ''0X'' then radix_literal 16 (drop 2 s)
      else if startsWith s ''0o'' \<or> startsWith s ''0O'' then radix_literal 8 (drop 2 s)
      else if startsWith s ''0b'' \<or> startsWith s ''0B'' then radix_literal 2 (drop 2 s)
      else if startsWith s ''+'' then unsigned_decimal (tl s)
      else if startsWith s ''-'' then negate (unsigned_decimal (tl s))
      else unsigned_decimal s)"

definition js_Number :: "string \<Rightarrow> jsnum" where
  \<comment> \<open>\<open>Number(s)\<close> for a string: white space is stripped, the empty string is 0, anything
      that is not a numeric literal is \<open>NaN\<close>\<close>
  "js_Number s = (let t = trim s in if t = [] then Num 0 else str_numeric_literal t)"

fun truthy :: "jsnum option \<Rightarrow> bool" where
  \<comment> \<open>\<open>if (fieldId)\<close> for \<open>number | undefined\<close>\<close>
  "truthy None = False"
| "truthy (Some NaN) = False"
| "truthy (Some (Num r)) = (r \<noteq> 0)"
| "truthy (Some n) = True"

fun strict_eq :: "rat \<Rightarrow> jsnum \<Rightarrow> bool" where
  \<comment> \<open>\<open>a === b\<close> for a number \<open>a\<close> from a JSON response\<close>
  "strict_eq a (Num b) = (a = b)"
| "strict_eq a n = False"

section \<open>Data exchanged with the CRM\<close>

text \<open>
  Message texts are kept as template literals: a list of literal pieces and interpolated
  values, so that no number has to be rendered.  \<open>MessageOf e\<close> is \<open>e.message\<close>.
\<close>

datatype exn =
    KommoAPIError nat string  \<comment> \<open>status code and message, thrown by \<open>kommoRequest\<close>\<close>
  | ZodError                  \<comment> \<open>thrown by \<open>schema.parse\<close>\<close>
  | OtherError string         \<comment> \<open>any other \<open>Error\<close>, for instance a failed \<open>fetch\<close>\<close>

datatype part = Str string | NumPart jsnum | MessageOf exn

type_synonym msg = "part list"

datatype 'a response = Throws exn | Returns 'a

record field_value =
  \<comment> \<open>\<open>{ value, enum_id? }\<close>; \<open>enum_code\<close> is never written here\<close>
  fv_value :: string
  fv_enum_id :: "rat option"

record lead_custom_field =
  \<comment> \<open>an entry of \<open>lead.custom_fields_values\<close> as the CRM reports it\<close>
  field_id :: rat
  field_name :: "string option"
  field_code :: "string option"
  field_type :: "string option"
  field_values :: "field_value list"

record kommo_lead =
  lead_id :: rat
  custom_fields_values :: "lead_custom_field list option"

record enum_def =
  \<comment> \<open>an entry of \<open>enums\<close> in the custom fields metadata\<close>
  enum_id :: rat
  enum_value :: string
  enum_color :: "string option"
  enum_sort :: "rat option"

record field_def =
  \<comment> \<open>an entry of \<open>_embedded.custom_fields\<close>\<close>
  fd_id :: rat
  fd_name :: string
  fd_code :: "string option"
  fd_type :: string
  fd_enums :: "enum_def list option"

record select_option =
  \<comment> \<open>an entry of \<open>options\<close> built by \<open>getSelectFieldOptions\<close>\<close>
  opt_value :: string
  opt_enum_id :: rat
  opt_color :: "string option"
  opt_sort :: "rat option"

record payload_entry =
  \<comment> \<open>an entry of \<open>customFieldsValues\<close>, the body of the update\<close>
  pe_field_id :: jsnum
  pe_values :: "field_value list"

record field_error =
  \<comment> \<open>an entry of \<open>errors\<close>: \<open>{ field, error }\<close>\<close>
  fe_field :: string
  fe_error :: msg

section \<open>The outside world\<close>

text \<open>
  Every \<open>kommoRequest\<close> either throws or returns the parsed JSON.  The world scripts the
  answers by endpoint and by call number, so that two requests to the same endpoint may be
  answered differently, and counts the requests made.  An absent value (\<open>null\<close>, an empty body,
  a missing \<open>_embedded\<close> member) is \<open>None\<close>.  Two host facts the sources do not fix are fields
  of the world as well: the collation behind \<open>localeCompare\<close>, and whether \<open>z.number()\<close>
  lets an infinite number pass (it always rejects \<open>NaN\<close>).
\<close>

record world =
  lead_resp :: "nat \<Rightarrow> kommo_lead option response"       \<comment> \<open>\<open>GET /leads/{id}\<close>\<close>
  meta_resp :: "nat \<Rightarrow> field_def list option response"  \<comment> \<open>\<open>GET /leads/custom_fields\<close>\<close>
  patch_resp :: "nat \<Rightarrow> kommo_lead option response"      \<comment> \<open>\<open>PATCH /leads\<close>: \<open>_embedded.leads[0]\<close>\<close>
  localeCompare :: "string \<Rightarrow> string \<Rightarrow> int"
  zod_infinite :: bool
  lead_gets :: nat                                    \<comment> \<open>snapshot requests made so far\<close>
  meta_gets :: nat                                    \<comment> \<open>metadata requests made so far\<close>
  update_calls :: "payload_entry list list"           \<comment> \<open>payloads handed to \<open>updateLead\<close>\<close>
  patches :: "payload_entry list list"                \<comment> \<open>bodies of the \<open>PATCH\<close> requests sent\<close>

definition request_lead :: "world \<Rightarrow> kommo_lead option response \<times> world" where
  "request_lead w = (lead_resp w (lead_gets w), w\<lparr>lead_gets := Suc (lead_gets w)\<rparr>)"

definition request_metadata :: "world \<Rightarrow> field_def list option response \<times> world" where
  "request_metadata w = (meta_resp w (meta_gets w), w\<lparr>meta_gets := Suc (meta_gets w)\<rparr>)"

definition request_patch :: "payload_entry list \<Rightarrow> world \<Rightarrow> kommo_lead option response \<times> world" where
  "request_patch body w = (patch_resp w (length (patches w)), w\<lparr>patches := patches w @ [body]\<rparr>)"

fun is404 :: "exn \<Rightarrow> bool" where
  \<comment> \<open>\<open>'statusCode' in error && error.statusCode === 404\<close>\<close>
  "is404 (KommoAPIError code m) = (code = 404)"
| "is404 e = False"

section \<open>Reading a lead (\<open>entities/leads/read.ts\<close>)\<close>

record get_lead_result =
  gl_success :: bool
  gl_lead :: "kommo_lead option"
  gl_error :: "msg option"

definition lead_not_found :: "rat \<Rightarrow> msg" where
  "lead_not_found leadId = [Str ''Lead with ID '', NumPart (Num leadId), Str '' not found'']"

definition positive_int :: "rat \<Rightarrow> bool" where
  \<comment> \<open>\<open>z.number().int().positive()\<close>\<close>
  "positive_int r = (r = of_int \<lfloor>r\<rfloor> \<and> 0 < r)"

definition getLead :: "rat \<Rightarrow> world \<Rightarrow> (exn + get_lead_result) \<times> world" where
  "getLead leadId w =
     (if \<not> positive_int leadId then (Inl ZodError, w)
      else
        (case request_lead w of
           (Returns None, w') \<Rightarrow>
             (Inr \<lparr>gl_success = False, gl_lead = None, gl_error = Some (lead_not_found leadId)\<rparr>, w')
         | (Returns (Some lead), w') \<Rightarrow>
             (Inr \<lparr>gl_success = True, gl_lead = Some lead, gl_error = None\<rparr>, w')
         | (Throws e, w') \<Rightarrow>
             (if is404 e
              then (Inr \<lparr>gl_success = False, gl_lead = None,
                         gl_error = Some (lead_not_found leadId)\<rparr>, w')
              else (Inr \<lparr>gl_success = False, gl_lead = None,
                         gl_error = Some [Str ''Get lead error: '', MessageOf e]\<rparr>, w'))))"

record custom_fields_result =
  \<comment> \<open>\<open>pipelineId\<close> and \<open>note\<close> are not read by the update and are left out\<close>
  cf_success :: bool
  cf_customFields :: "lead_custom_field list option"
  cf_error :: "msg option"

definition getLeadCustomFields :: "rat \<Rightarrow> world \<Rightarrow> custom_fields_result \<times> world" where
  "getLeadCustomFields leadId w =
     (case getLead leadId w of
        (Inl e, w') \<Rightarrow>
          (\<lparr>cf_success = False, cf_customFields = None,
            cf_error = Some [Str ''Get lead custom fields error: '', MessageOf e]\<rparr>, w')
      | (Inr result, w') \<Rightarrow>
          (case (gl_success result, gl_lead result) of
             (True, Some lead) \<Rightarrow>
               (\<lparr>cf_success = True,
                 cf_customFields =
                   Some (case custom_fields_values lead of Some cs \<Rightarrow> cs | None \<Rightarrow> []),
                 cf_error = None\<rparr>, w')
           | _ \<Rightarrow>
               (\<lparr>cf_success = False, cf_customFields = None,
                 cf_error = Some (case gl_error result of Some t \<Rightarrow> t
                                  | None \<Rightarrow> lead_not_found leadId)\<rparr>, w')))"

record search_result =
  sr_success :: bool
  sr_field :: "lead_custom_field option"
  sr_error :: "msg option"

definition lower_or_empty :: "string option \<Rightarrow> string" where
  \<comment> \<open>\<open>s?.toLowerCase() || ''\<close>\<close>
  "lower_or_empty s = (case s of Some t \<Rightarrow> toLowerCase t | None \<Rightarrow> [])"

definition name_matches :: "string \<Rightarrow> lead_custom_field \<Rightarrow> bool" where
  "name_matches searchName f =
     (js_includes (lower_or_empty (field_name f)) searchName \<or>
      js_includes (lower_or_empty (field_code f)) searchName)"

definition searchLeadCustomField :: "rat \<Rightarrow> string \<Rightarrow> world \<Rightarrow> search_result \<times> world" where
  "searchLeadCustomField leadId searchTerm w =
     (case getLeadCustomFields leadId w of (result, w') \<Rightarrow>
        (case (cf_success result, cf_customFields result) of
           (True, Some customFields) \<Rightarrow>
             (let byId = (if \<not> isNaN (js_Number searchTerm)
                          then find (\<lambda>f. strict_eq (field_id f) (js_Number searchTerm)) customFields
                          else None)
              in case byId of
                   Some f \<Rightarrow> (\<lparr>sr_success = True, sr_field = Some f, sr_error = None\<rparr>, w')
                 | None \<Rightarrow>
                     (case find (name_matches (toLowerCase searchTerm)) customFields of
                        Some f \<Rightarrow> (\<lparr>sr_success = True, sr_field = Some f, sr_error = None\<rparr>, w')
                      | None \<Rightarrow>
                          (\<lparr>sr_success = False, sr_field = None,
                            sr_error = Some [Str ''Custom field not found: '', Str searchTerm,
                              Str ''. Note: Only fields with values are searchable (Kommo API limitation).'']\<rparr>,
                           w')))
         | _ \<Rightarrow>
             (\<lparr>sr_success = False, sr_field = None,
               sr_error = Some (case cf_error result of Some t \<Rightarrow> t
                                | None \<Rightarrow> [Str ''Failed to get custom fields''])\<rparr>, w')))"

record metadata_result =
  md_success :: bool
  md_fields :: "field_def list option"
  md_error :: "msg option"

definition has_enums :: "field_def \<Rightarrow> bool" where
  \<comment> \<open>\<open>f.enums && Array.isArray(f.enums) && f.enums.length > 0\<close>\<close>
  "has_enums f = (case fd_enums f of Some es \<Rightarrow> es \<noteq> [] | None \<Rightarrow> False)"

definition getLeadCustomFieldsMetadata :: "world \<Rightarrow> metadata_result \<times> world" where
  "getLeadCustomFieldsMetadata w =
     (case request_metadata w of
        (Throws e, w') \<Rightarrow>
          (\<lparr>md_success = False, md_fields = None,
            md_error = Some [Str ''Get custom fields metadata error: '', MessageOf e]\<rparr>, w')
      | (Returns None, w') \<Rightarrow>
          (\<lparr>md_success = False, md_fields = None,
            md_error = Some [Str ''Invalid response format from custom fields endpoint: missing _embedded.custom_fields'']\<rparr>,
           w')
      | (Returns (Some defs), w') \<Rightarrow>
          (\<lparr>md_success = True, md_fields = Some (filter has_enums defs), md_error = None\<rparr>, w'))"

record options_result =
  or_success :: bool
  or_fieldId :: jsnum
  or_fieldName :: "string option"
  or_fieldCode :: "string option"
  or_fieldType :: "string option"
  or_options :: "select_option list option"
  or_error :: "msg option"

definition to_option :: "enum_def \<Rightarrow> select_option" where
  "to_option enumData =
     \<lparr>opt_value = enum_value enumData, opt_enum_id = enum_id enumData,
      opt_color = enum_color enumData, opt_sort = enum_sort enumData\<rparr>"

definition compare_options :: "world \<Rightarrow> select_option \<Rightarrow> select_option \<Rightarrow> rat" where
  \<comment> \<open>the comparator handed to \<open>options.sort\<close>\<close>
  "compare_options w a b =
     (case (opt_sort a, opt_sort b) of
        (Some x, Some y) \<Rightarrow> x - y
      | _ \<Rightarrow> of_int (localeCompare w (opt_value a) (opt_value b)))"

text \<open>
  \<open>Array.prototype.sort\<close> is stable.  It is modelled as an insertion sort that keeps the order
  of options the comparator calls equal; whenever the comparator is a consistent order (as it
  is when every option has a \<open>sort\<close> member) every stable sort yields this list.
\<close>

fun insert_option :: "world \<Rightarrow> select_option \<Rightarrow> select_option list \<Rightarrow> select_option list" where
  "insert_option w x [] = [x]"
| "insert_option w x (y # ys) =
     (if compare_options w x y \<le> 0 then x # y # ys else y # insert_option w x ys)"

definition sort_options :: "world \<Rightarrow> select_option list \<Rightarrow> select_option list" where
  "sort_options w xs = foldr (insert_option w) xs []"

definition getSelectFieldOptions :: "jsnum \<Rightarrow> world \<Rightarrow> options_result \<times> world" where
  "getSelectFieldOptions fieldId w =
     (case getLeadCustomFieldsMetadata w of (metadataResult, w') \<Rightarrow>
        (case (md_success metadataResult, md_fields metadataResult) of
           (True, Some defs) \<Rightarrow>
             (case find (\<lambda>f. strict_eq (fd_id f) fieldId) defs of
                None \<Rightarrow>
                  (\<lparr>or_success = False, or_fieldId = fieldId, or_fieldName = None,
                    or_fieldCode = None, or_fieldType = None, or_options = None,
                    or_error = Some [Str ''Field with ID '', NumPart fieldId,
                                     Str '' not found in custom fields metadata'']\<rparr>, w')
              | Some field \<Rightarrow>
                  if fd_type field \<noteq> ''select'' \<and> fd_type field \<noteq> ''multiselect''
                  then
                    (\<lparr>or_success = False, or_fieldId = fieldId, or_fieldName = Some (fd_name field),
                      or_fieldCode = fd_code field, or_fieldType = Some (fd_type field),
                      or_options = None,
                      or_error = Some [Str ''Field '', Str [CHR 0x22], Str (fd_name field),
                                       Str [CHR 0x22], Str '' is not a select field (type: '',
                                       Str (fd_type field), Str '')'']\<rparr>, w')
                  else
                    (let options = sort_options w'
                           (case fd_enums field of Some es \<Rightarrow> map to_option es | None \<Rightarrow> [])
                     in (\<lparr>or_success = True, or_fieldId = fieldId,
                          or_fieldName = Some (fd_name field), or_fieldCode = fd_code field,
                          or_fieldType = Some (fd_type field),
                          or_options = (if options \<noteq> [] then Some options else None),
                          or_error = None\<rparr>, w')))
         | _ \<Rightarrow>
             (\<lparr>or_success = False, or_fieldId = fieldId, or_fieldName = None,
               or_fieldCode = None, or_fieldType = None, or_options = None,
               or_error = Some (case md_error metadataResult of Some t \<Rightarrow> t
                                | None \<Rightarrow> [Str ''Failed to get custom fields metadata''])\<rparr>, w')))"

section \<open>Writing a lead (leads write operations)\<close>

record lead_write_result =
  lw_success :: bool
  lw_lead :: "kommo_lead option"
  lw_leadId :: "rat option"
  lw_error :: "msg option"

fun zNumber :: "world \<Rightarrow> jsnum \<Rightarrow> bool" where
  \<comment> \<open>\<open>z.number()\<close>\<close>
  "zNumber w NaN = False"
| "zNumber w (Num r) = True"
| "zNumber w n = zod_infinite w"

definition updateLeadDataSchema :: "world \<Rightarrow> payload_entry list \<Rightarrow> bool" where
  \<comment> \<open>whether \<open>updateLeadDataSchema.parse({ custom_fields_values })\<close> returns: every \<open>value\<close> is
      a string and every \<open>enum_id\<close> a finite number already, so only \<open>field_id\<close> can fail\<close>
  "updateLeadDataSchema w customFieldsValues = list_all (\<lambda>e. zNumber w (pe_field_id e)) customFieldsValues"

definition updateLead :: "rat \<Rightarrow> payload_entry list \<Rightarrow> world \<Rightarrow> (exn + lead_write_result) \<times> world" where
  \<comment> \<open>called with \<open>{ custom_fields_values }\<close> only; the parse is outside the \<open>try\<close>\<close>
  "updateLead leadId customFieldsValues w =
     (let w0 = w\<lparr>update_calls := update_calls w @ [customFieldsValues]\<rparr>
      in if \<not> updateLeadDataSchema w customFieldsValues then (Inl ZodError, w0)
         else
           (case request_patch customFieldsValues w0 of
              (Returns (Some lead), w') \<Rightarrow>
                (Inr \<lparr>lw_success = True, lw_lead = Some lead, lw_leadId = Some (lead_id lead),
                      lw_error = None\<rparr>, w')
            | (Returns None, w') \<Rightarrow>
                (Inr \<lparr>lw_success = False, lw_lead = None, lw_leadId = None,
                      lw_error = Some [Str ''Failed to update lead: No lead returned in response'']\<rparr>, w')
            | (Throws e, w') \<Rightarrow>
                (if is404 e
                 then (Inr \<lparr>lw_success = False, lw_lead = None, lw_leadId = None,
                            lw_error = Some (lead_not_found leadId)\<rparr>, w')
                 else (Inr \<lparr>lw_success = False, lw_lead = None, lw_leadId = None,
                            lw_error = Some [Str ''Update lead error: '', MessageOf e]\<rparr>, w'))))"

section \<open>\<open>updateLeadCustomFields\<close>\<close>

definition add_names :: "(string \<rightharpoonup> rat) \<Rightarrow> lead_custom_field \<Rightarrow> (string \<rightharpoonup> rat)" where
  \<comment> \<open>the body of the \<open>forEach\<close> that fills \<open>nameToIdMap\<close>; an empty string is falsy\<close>
  "add_names m field =
     (let m1 = (case field_name field of
                  Some n \<Rightarrow> if n \<noteq> [] then m(toLowerCase n \<mapsto> field_id field) else m
                | None \<Rightarrow> m)
      in case field_code field of
           Some c \<Rightarrow> if c \<noteq> [] then m1(toLowerCase c \<mapsto> field_id field) else m1
         | None \<Rightarrow> m1)"

definition build_nameToIdMap :: "custom_fields_result \<Rightarrow> (string \<rightharpoonup> rat)" where
  "build_nameToIdMap existingFields =
     (case (cf_success existingFields, cf_customFields existingFields) of
        (True, Some customFields) \<Rightarrow> foldl add_names Map.empty customFields
      | _ \<Rightarrow> Map.empty)"

definition normalizeStr :: "string \<Rightarrow> string" where
  \<comment> \<open>\<open>s.toLowerCase().replace(/[^\w\s]/g, ' ').replace(/\s+/g, ' ').trim()\<close>\<close>
  "normalizeStr s =
     trim (replace_runs False
       (map (\<lambda>c. if \<not> is_word c \<and> \<not> is_space c then CHR '' '' else c) (toLowerCase s)))"

definition exact_match :: "string \<Rightarrow> string \<Rightarrow> string \<Rightarrow> string \<Rightarrow> bool" where
  \<comment> \<open>\<open>optValue === searchValue || normalizedOpt === normalizedSearch\<close>\<close>
  "exact_match searchValue normalizedSearch optValue normalizedOpt =
     (optValue = searchValue \<or> normalizedOpt = normalizedSearch)"

definition contains_match :: "string \<Rightarrow> string \<Rightarrow> bool" where
  \<comment> \<open>\<open>a.includes(b) || b.includes(a)\<close>, used on the raw and on the normalized strings\<close>
  "contains_match a b = (js_includes a b \<or> js_includes b a)"

definition word_match :: "string \<Rightarrow> string \<Rightarrow> bool" where
  \<comment> \<open>every word of the search longer than two characters occurs in the option\<close>
  "word_match normalizedSearch normalizedOpt =
     (let searchWords = filter (\<lambda>w. length w > 2) (split_space normalizedSearch)
      in if searchWords \<noteq> []
         then (if list_all (\<lambda>word. js_includes normalizedOpt word) searchWords then True else False)
         else False)"

definition option_matches :: "string \<Rightarrow> string \<Rightarrow> select_option \<Rightarrow> bool" where
  \<comment> \<open>the callback of \<open>optionsResult.options.find\<close>\<close>
  "option_matches searchValue normalizedSearch opt =
     (let optValue = trim (toLowerCase (opt_value opt));
          normalizedOpt = normalizeStr optValue
      in if exact_match searchValue normalizedSearch optValue normalizedOpt then True
         else if contains_match optValue searchValue then True
         else if contains_match normalizedOpt normalizedSearch then True
         else word_match normalizedSearch normalizedOpt)"

definition find_option :: "string \<Rightarrow> select_option list \<Rightarrow> select_option option" where
  \<comment> \<open>\<open>matchedOption\<close> for the raw \<open>value\<close>\<close>
  "find_option val options =
     (let searchValue = trim (toLowerCase val);
          normalizedSearch = normalizeStr searchValue
      in find (option_matches searchValue normalizedSearch) options)"

definition invalid_value :: "string \<Rightarrow> options_result \<Rightarrow> jsnum \<Rightarrow> select_option list \<Rightarrow> msg" where
  "invalid_value val optionsResult fieldId options =
     [Str ''Value '', Str [CHR 0x22], Str val, Str [CHR 0x22],
      Str '' is not valid for select field '', Str [CHR 0x22],
      (case or_fieldName optionsResult of
         Some n \<Rightarrow> if n \<noteq> [] then Str n else NumPart fieldId
       | None \<Rightarrow> NumPart fieldId),
      Str [CHR 0x22], Str ''. Valid options include: '',
      Str (join '', '' (map opt_value (take 5 options))),
      Str (if length options > 5 then ''...'' else [])]"

definition field_not_found :: "string \<Rightarrow> msg" where
  "field_not_found fieldKey =
     [Str ''Field not found: '', Str fieldKey,
      Str ''. Field may not exist or may not have a value yet (Kommo API limitation). Try using the field ID directly.'']"

type_synonym builder = "world \<times> payload_entry list \<times> field_error list"

definition resolve_key :: "rat \<Rightarrow> (string \<rightharpoonup> rat) \<Rightarrow> string \<Rightarrow> world \<Rightarrow> jsnum option \<times> world" where
  \<comment> \<open>the computation of \<open>fieldId\<close>; a key of \<open>Object.entries\<close> is always a string\<close>
  "resolve_key leadId nameToIdMap fieldKey w =
     (if \<not> isNaN (js_Number fieldKey) then (Some (js_Number fieldKey), w)
      else
        (case searchLeadCustomField leadId fieldKey w of (searchResult, w') \<Rightarrow>
           (case (sr_success searchResult, sr_field searchResult) of
              (True, Some field) \<Rightarrow> (Some (Num (field_id field)), w')
            | _ \<Rightarrow> (map_option Num (nameToIdMap (toLowerCase fieldKey)), w'))))"

definition add_field :: "string \<Rightarrow> string \<Rightarrow> jsnum \<Rightarrow> builder \<Rightarrow> builder" where
  \<comment> \<open>the block that follows \<open>getSelectFieldOptions\<close>; the source has it twice, once for
      \<open>fieldId\<close> and once for \<open>numericKey\<close>\<close>
  "add_field fieldKey val fieldId b =
     (case b of (w, customFieldsValues, errors) \<Rightarrow>
        (case getSelectFieldOptions fieldId w of (optionsResult, w') \<Rightarrow>
           (case (or_success optionsResult, or_options optionsResult) of
              (True, Some (opt # opts)) \<Rightarrow>
                (case find_option val (opt # opts) of
                   Some matchedOption \<Rightarrow>
                     (w',
                      customFieldsValues @
                        [\<lparr>pe_field_id = fieldId,
                          pe_values = [\<lparr>fv_value = opt_value matchedOption,
                                        fv_enum_id = Some (opt_enum_id matchedOption)\<rparr>]\<rparr>],
                      errors)
                 | None \<Rightarrow>
                     (w', customFieldsValues,
                      errors @ [\<lparr>fe_field = fieldKey,
                                 fe_error = invalid_value val optionsResult fieldId (opt # opts)\<rparr>]))
            | _ \<Rightarrow>
                (w',
                 customFieldsValues @
                   [\<lparr>pe_field_id = fieldId, pe_values = [\<lparr>fv_value = val, fv_enum_id = None\<rparr>]\<rparr>],
                 errors))))"

definition process_entry :: "rat \<Rightarrow> (string \<rightharpoonup> rat) \<Rightarrow> string \<times> string \<Rightarrow> builder \<Rightarrow> builder" where
  \<comment> \<open>one iteration of the loop over \<open>Object.entries(fields)\<close>\<close>
  "process_entry leadId nameToIdMap entry b =
     (case (entry, b) of ((fieldKey, val), (w, customFieldsValues, errors)) \<Rightarrow>
        (case resolve_key leadId nameToIdMap fieldKey w of (fieldId, w') \<Rightarrow>
           if truthy fieldId
           then add_field fieldKey val (the fieldId) (w', customFieldsValues, errors)
           else
             (let numericKey = js_Number fieldKey
              in if \<not> isNaN numericKey
                 then add_field fieldKey val numericKey (w', customFieldsValues, errors)
                 else (w', customFieldsValues,
                       errors @ [\<lparr>fe_field = fieldKey, fe_error = field_not_found fieldKey\<rparr>]))))"

fun process_entries :: "rat \<Rightarrow> (string \<rightharpoonup> rat) \<Rightarrow> (string \<times> string) list \<Rightarrow> builder \<Rightarrow> builder" where
  "process_entries leadId nameToIdMap [] b = b"
| "process_entries leadId nameToIdMap (entry # entries) b =
     process_entries leadId nameToIdMap entries (process_entry leadId nameToIdMap entry b)"

record update_fields_result =
  success :: bool
  updatedFields :: "nat option"
  errors :: "field_error list option"
  error :: "msg option"

definition errors_or_undefined :: "field_error list \<Rightarrow> field_error list option" where
  \<comment> \<open>\<open>errors.length > 0 ? errors : undefined\<close>\<close>
  "errors_or_undefined es = (if es \<noteq> [] then Some es else None)"

definition build_payload :: "rat \<Rightarrow> (string \<times> string) list \<Rightarrow> world \<Rightarrow> builder" where
  \<comment> \<open>the first part of \<open>updateLeadCustomFields\<close>, up to the end of the loop; \<open>entries\<close> is
      \<open>Object.entries(fields)\<close>, in the order of that call\<close>
  "build_payload leadId entries w =
     (case getLeadCustomFields leadId w of (existingFields, w1) \<Rightarrow>
        process_entries leadId (build_nameToIdMap existingFields) entries (w1, [], []))"

definition updateLeadCustomFields ::
    "rat \<Rightarrow> (string \<times> string) list \<Rightarrow> world \<Rightarrow> update_fields_result \<times> world" where
  \<comment> \<open>an exception of \<open>updateLead\<close> is caught by the \<open>try\<close> around the whole body\<close>
  "updateLeadCustomFields leadId entries w =
     (case build_payload leadId entries w of (w2, customFieldsValues, errs) \<Rightarrow>
        if customFieldsValues \<noteq> []
        then
          (case updateLead leadId customFieldsValues w2 of
             (Inl e, w3) \<Rightarrow>
               (\<lparr>success = False, updatedFields = None, errors = None,
                 error = Some [Str ''Update lead custom fields error: '', MessageOf e]\<rparr>, w3)
           | (Inr updateResult, w3) \<Rightarrow>
               if \<not> lw_success updateResult
               then (\<lparr>success = False, updatedFields = Some 0,
                      errors = errors_or_undefined errs,
                      error = lw_error updateResult\<rparr>, w3)
               else (\<lparr>success = True, updatedFields = Some (length customFieldsValues),
                      errors = errors_or_undefined errs, error = None\<rparr>, w3))
        else
          (\<lparr>success = False, updatedFields = Some 0, errors = Some errs,
            error = Some [Str ''No fields could be mapped to field IDs'']\<rparr>, w2))"

section \<open>Vocabulary of the properties\<close>

definition resolvedCount :: "update_fields_result \<Rightarrow> nat" where
  \<comment> \<open>\<open>updatedFields\<close>, read as 0 when the member is absent\<close>
  "resolvedCount r = (case updatedFields r of Some n \<Rightarrow> n | None \<Rightarrow> 0)"

definition perFieldErrors :: "update_fields_result \<Rightarrow> field_error list" where
  \<comment> \<open>\<open>errors\<close>, read as the empty list when the member is absent\<close>
  "perFieldErrors r = (case errors r of Some es \<Rightarrow> es | None \<Rightarrow> [])"

definition is_not_found :: "field_error \<Rightarrow> bool" where
  \<comment> \<open>the error is the \<open>Field not found\<close> diagnostic of its key\<close>
  "is_not_found x = (fe_error x = field_not_found (fe_field x))"

definition not_found :: "string \<Rightarrow> field_error" where
  "not_found fieldKey = \<lparr>fe_field = fieldKey, fe_error = field_not_found fieldKey\<rparr>"

definition numeric_key :: "string \<Rightarrow> bool" where
  \<comment> \<open>\<open>!isNaN(Number(fieldKey))\<close>\<close>
  "numeric_key fieldKey = (\<not> isNaN (js_Number fieldKey))"

definition exact_for :: "string \<Rightarrow> select_option \<Rightarrow> bool" where
  \<comment> \<open>the option satisfies the first rule of the callback for the raw value\<close>
  "exact_for val opt =
     exact_match (trim (toLowerCase val)) (normalizeStr (trim (toLowerCase val)))
       (trim (toLowerCase (opt_value opt))) (normalizeStr (trim (toLowerCase (opt_value opt))))"

definition matches_any :: "string \<Rightarrow> select_option \<Rightarrow> bool" where
  \<comment> \<open>the option satisfies some rule of the callback for the raw value\<close>
  "matches_any val opt =
     option_matches (trim (toLowerCase val)) (normalizeStr (trim (toLowerCase val))) opt"

definition free_text :: "jsnum \<Rightarrow> string \<Rightarrow> payload_entry" where
  \<comment> \<open>the payload entry of a plain text field\<close>
  "free_text fieldId val =
     \<lparr>pe_field_id = fieldId, pe_values = [\<lparr>fv_value = val, fv_enum_id = None\<rparr>]\<rparr>"





definition snapshot_of :: "custom_fields_result \<Rightarrow> lead_custom_field list" where
  \<comment> \<open>the fields of a fetched snapshot, none when the fetch failed\<close>
  "snapshot_of r =
     (case (cf_success r, cf_customFields r) of (True, Some cs) \<Rightarrow> cs | _ \<Rightarrow> [])"

section \<open>Example data\<close>

definition city :: lead_custom_field where
  "city = \<lparr>field_id = 501, field_name = Some ''City'', field_code = Some ''CITY'',
            field_type = Some ''select'', field_values = []\<rparr>"

definition street :: lead_custom_field where
  "street = \<lparr>field_id = 7, field_name = Some ''Calle 123'', field_code = None,
              field_type = Some ''text'',
              field_values = [\<lparr>fv_value = ''x'', fv_enum_id = None\<rparr>]\<rparr>"

definition lead1 :: kommo_lead where
  "lead1 = \<lparr>lead_id = 1, custom_fields_values = Some [city, street]\<rparr>"

definition bogota_norte :: enum_def where
  "bogota_norte =
     \<lparr>enum_id = 11, enum_value = ''Bogota Norte'', enum_color = None, enum_sort = Some 1\<rparr>"

definition bogota :: enum_def where
  "bogota = \<lparr>enum_id = 12, enum_value = ''Bogota'', enum_color = None, enum_sort = Some 2\<rparr>"

definition cali :: enum_def where
  "cali = \<lparr>enum_id = 13, enum_value = ''Cali'', enum_color = None, enum_sort = Some 3\<rparr>"

definition cityDef :: field_def where
  "cityDef = \<lparr>fd_id = 501, fd_name = ''City'', fd_code = Some ''CITY'', fd_type = ''select'',
               fd_enums = Some [bogota, cali, bogota_norte]\<rparr>"

definition world_ok :: world where
  \<comment> \<open>every request is answered; the catalog holds the select field 501\<close>
  "world_ok =
     \<lparr>lead_resp = (\<lambda>n. Returns (Some lead1)), meta_resp = (\<lambda>n. Returns (Some [cityDef])),
      patch_resp = (\<lambda>n. Returns (Some lead1)), localeCompare = (\<lambda>a b. 0),
      zod_infinite = True, lead_gets = 0, meta_gets = 0, update_calls = [], patches = []\<rparr>"

definition world_write_fails :: world where
  "world_write_fails =
     world_ok\<lparr>patch_resp := (\<lambda>n. Throws (KommoAPIError 500 ''Internal Server Error''))\<rparr>"


definition world_no_snapshot :: world where
  "world_no_snapshot = world_ok\<lparr>lead_resp := (\<lambda>n. Throws (OtherError ''fetch failed''))\<rparr>"



section \<open>Effects of the calls on the world\<close>

lemma getLead_world:
  "snd (getLead leadId w) = (if positive_int leadId then w\<lparr>lead_gets := Suc (lead_gets w)\<rparr> else w)"
  by (simp add: getLead_def request_lead_def split: response.splits option.splits)

lemma getLeadCustomFields_world:
  "snd (getLeadCustomFields leadId w) =
     (if positive_int leadId then w\<lparr>lead_gets := Suc (lead_gets w)\<rparr> else w)"
  using getLead_world [of leadId w]
  by (auto simp: getLeadCustomFields_def split: prod.splits sum.splits option.splits bool.splits)

lemma searchLeadCustomField_world:
  "snd (searchLeadCustomField leadId searchTerm w) =
     (if positive_int leadId then w\<lparr>lead_gets := Suc (lead_gets w)\<rparr> else w)"
  using getLeadCustomFields_world [of leadId w]
  by (auto simp: searchLeadCustomField_def Let_def split: prod.splits option.splits bool.splits)

lemma getSelectFieldOptions_world:
  "snd (getSelectFieldOptions fieldId w) = w\<lparr>meta_gets := Suc (meta_gets w)\<rparr>"
  by (auto simp: getSelectFieldOptions_def getLeadCustomFieldsMetadata_def request_metadata_def Let_def
      split: prod.splits option.splits bool.splits response.splits)

lemma updateLead_world:
  "snd (updateLead leadId payload w) =
     (if updateLeadDataSchema w payload
      then w\<lparr>update_calls := update_calls w @ [payload], patches := patches w @ [payload]\<rparr>
      else w\<lparr>update_calls := update_calls w @ [payload]\<rparr>)"
  by (auto simp: updateLead_def request_patch_def Let_def split: response.splits option.splits)

lemma invalid_value_not_field_not_found:
  "invalid_value val optionsResult fieldId options \<noteq> field_not_found fieldKey"
  by (simp add: invalid_value_def field_not_found_def)

lemma add_field_world:
  "fst (add_field fieldKey val fieldId (w, p, e)) = w\<lparr>meta_gets := Suc (meta_gets w)\<rparr>"
  using getSelectFieldOptions_world [of fieldId w]
  by (auto simp: add_field_def split: prod.splits option.splits bool.splits list.splits)

lemma add_field_outcome:
  assumes "add_field fieldKey val fieldId (w, p, e) = (w', p', e')"
  shows "(\<exists>x. p' = p @ [x] \<and> pe_field_id x = fieldId \<and> e' = e) \<or>
         (p' = p \<and> (\<exists>y. e' = e @ [y] \<and> fe_field y = fieldKey \<and>
                        fe_error y \<noteq> field_not_found fieldKey))"
  using assms
  by (auto simp: add_field_def invalid_value_not_field_not_found
      split: prod.splits option.splits bool.splits list.splits)

lemma resolve_key_numeric:
  "\<not> isNaN (js_Number fieldKey) \<Longrightarrow>
     resolve_key leadId nameToIdMap fieldKey w = (Some (js_Number fieldKey), w)"
  by (simp add: resolve_key_def)

lemma resolve_key_world:
  "snd (resolve_key leadId nameToIdMap fieldKey w) =
     (if isNaN (js_Number fieldKey) \<and> positive_int leadId
      then w\<lparr>lead_gets := Suc (lead_gets w)\<rparr> else w)"
  using searchLeadCustomField_world [of leadId fieldKey w]
  by (auto simp: resolve_key_def split: prod.splits option.splits bool.splits)

lemma resolve_key_name:
  assumes "isNaN (js_Number fieldKey)"
    and "resolve_key leadId nameToIdMap fieldKey w = (Some n, w')"
  shows "\<exists>r. n = Num r"
  using assms
  by (auto simp: resolve_key_def split: prod.splits option.splits bool.splits)

lemma truthy_Some: "truthy x \<Longrightarrow> \<exists>n. x = Some n"
  by (cases x) auto

lemma process_entry_numeric:
  assumes "\<not> isNaN (js_Number fieldKey)"
  shows "process_entry leadId nameToIdMap (fieldKey, val) (w, p, e) =
           add_field fieldKey val (js_Number fieldKey) (w, p, e)"
  using assms by (simp add: process_entry_def resolve_key_numeric)

lemma process_entry_world:
  "fst (process_entry leadId nameToIdMap entry (w, p, e)) =
     (snd (resolve_key leadId nameToIdMap (fst entry) w))
       \<lparr>meta_gets :=
          (if truthy (fst (resolve_key leadId nameToIdMap (fst entry) w)) \<or>
              \<not> isNaN (js_Number (fst entry))
           then Suc (meta_gets w) else meta_gets w)\<rparr>"
  using resolve_key_world [of leadId nameToIdMap "fst entry" w]
  by (cases entry) (auto simp: process_entry_def add_field_world Let_def split: prod.splits)

lemma process_entry_frame:
  assumes "process_entry leadId nameToIdMap entry (w, p, e) = (w', p', e')"
  shows "update_calls w' = update_calls w \<and> patches w' = patches w \<and>
         meta_resp w' = meta_resp w \<and> lead_resp w' = lead_resp w \<and>
         patch_resp w' = patch_resp w \<and> zod_infinite w' = zod_infinite w \<and>
         localeCompare w' = localeCompare w \<and> lead_gets w \<le> lead_gets w'"
proof -
  have "w' = fst (process_entry leadId nameToIdMap entry (w, p, e))"
    by (simp add: assms)
  then show ?thesis
    by (simp add: process_entry_world resolve_key_world)
qed

lemma process_entry_outcome:
  assumes "process_entry leadId nameToIdMap (fieldKey, val) (w, p, e) = (w', p', e')"
  shows "(\<exists>x. p' = p @ [x] \<and> e' = e \<and> meta_gets w' = Suc (meta_gets w) \<and>
              (if isNaN (js_Number fieldKey) then \<exists>r. pe_field_id x = Num r \<and> r \<noteq> 0
               else pe_field_id x = js_Number fieldKey)) \<or>
         (p' = p \<and> meta_gets w' = Suc (meta_gets w) \<and>
            (\<exists>y. e' = e @ [y] \<and> fe_field y = fieldKey \<and> \<not> is_not_found y)) \<or>
         (p' = p \<and> meta_gets w' = meta_gets w \<and> isNaN (js_Number fieldKey) \<and>
            e' = e @ [not_found fieldKey])"
proof (cases "isNaN (js_Number fieldKey)")
  case False
  then have af: "add_field fieldKey val (js_Number fieldKey) (w, p, e) = (w', p', e')"
    using assms by (simp add: process_entry_numeric)
  have "w' = w\<lparr>meta_gets := Suc (meta_gets w)\<rparr>"
    using add_field_world [of fieldKey val "js_Number fieldKey" w p e] af by simp
  then show ?thesis
    using add_field_outcome [OF af] False by (auto simp: is_not_found_def)
next
  case True
  obtain fid w1 where rk: "resolve_key leadId nameToIdMap fieldKey w = (fid, w1)"
    by (cases "resolve_key leadId nameToIdMap fieldKey w")
  have mg: "meta_gets w1 = meta_gets w"
    using resolve_key_world [of leadId nameToIdMap fieldKey w] rk by (auto split: if_splits)
  show ?thesis
  proof (cases "truthy fid")
    case t: True
    then obtain n where n: "fid = Some n" using truthy_Some by blast
    then obtain r where r: "n = Num r" using resolve_key_name [OF True] rk by blast
    have r0: "r \<noteq> 0" using t n r by simp
    have af: "add_field fieldKey val (Num r) (w1, p, e) = (w', p', e')"
      using assms rk t n r by (simp add: process_entry_def)
    have "w' = w1\<lparr>meta_gets := Suc (meta_gets w1)\<rparr>"
      using add_field_world [of fieldKey val "Num r" w1 p e] af by simp
    then show ?thesis
      using add_field_outcome [OF af] True r0 mg by (auto simp: is_not_found_def)
  next
    case False
    then show ?thesis
      using assms rk True mg by (auto simp: process_entry_def not_found_def)
  qed
qed

lemma process_entries_frame:
  "process_entries leadId nameToIdMap entries (w, p, e) = (w', p', e') \<Longrightarrow>
     update_calls w' = update_calls w \<and> patches w' = patches w \<and>
     meta_resp w' = meta_resp w \<and> lead_resp w' = lead_resp w \<and>
     patch_resp w' = patch_resp w \<and> zod_infinite w' = zod_infinite w \<and>
     localeCompare w' = localeCompare w \<and> lead_gets w \<le> lead_gets w'"
proof (induction entries arbitrary: w p e)
  case Nil
  then show ?case by simp
next
  case (Cons entry entries)
  obtain w1 p1 e1 where step: "process_entry leadId nameToIdMap entry (w, p, e) = (w1, p1, e1)"
    by (cases "process_entry leadId nameToIdMap entry (w, p, e)")
  with Cons.prems have rest: "process_entries leadId nameToIdMap entries (w1, p1, e1) = (w', p', e')"
    by simp
  show ?case
    using process_entry_frame [OF step] Cons.IH [OF rest] by simp
qed

lemma process_entries_counts:
  "process_entries leadId nameToIdMap entries (w, p, e) = (w', p', e') \<Longrightarrow>
     length p' + length e' = length p + length e + length entries \<and>
     meta_gets w' + length (filter is_not_found e') =
       meta_gets w + length (filter is_not_found e) + length entries"
proof (induction entries arbitrary: w p e)
  case Nil
  then show ?case by simp
next
  case (Cons entry entries)
  obtain fieldKey val where entry: "entry = (fieldKey, val)"
    by (cases entry)
  obtain w1 p1 e1 where step: "process_entry leadId nameToIdMap (fieldKey, val) (w, p, e) = (w1, p1, e1)"
    by (cases "process_entry leadId nameToIdMap (fieldKey, val) (w, p, e)")
  with Cons.prems entry have rest: "process_entries leadId nameToIdMap entries (w1, p1, e1) = (w', p', e')"
    by simp
  have one: "length p1 + length e1 = Suc (length p + length e) \<and>
             meta_gets w1 + length (filter is_not_found e1) =
               Suc (meta_gets w + length (filter is_not_found e))"
    using process_entry_outcome [OF step] by (auto simp: is_not_found_def not_found_def)
  show ?case
    using one Cons.IH [OF rest] by simp
qed

lemma build_payload_counts:
  assumes "build_payload leadId entries w = (w2, payload, errs)"
  shows "length payload + length errs = length entries"
    and "meta_gets w2 + length (filter is_not_found errs) = meta_gets w + length entries"
    and "update_calls w2 = update_calls w" and "patches w2 = patches w"
    and "zod_infinite w2 = zod_infinite w"
proof -
  obtain existingFields w1 where g: "getLeadCustomFields leadId w = (existingFields, w1)"
    by (cases "getLeadCustomFields leadId w")
  then have pe: "process_entries leadId (build_nameToIdMap existingFields) entries (w1, [], []) =
                   (w2, payload, errs)"
    using assms by (simp add: build_payload_def)
  have w1: "w1 = (if positive_int leadId then w\<lparr>lead_gets := Suc (lead_gets w)\<rparr> else w)"
    using getLeadCustomFields_world [of leadId w] g by simp
  show "length payload + length errs = length entries"
    using process_entries_counts [OF pe] by simp
  show "meta_gets w2 + length (filter is_not_found errs) = meta_gets w + length entries"
    using process_entries_counts [OF pe] w1 by simp
  show "update_calls w2 = update_calls w" "patches w2 = patches w"
    "zod_infinite w2 = zod_infinite w"
    using process_entries_frame [OF pe] w1 by simp_all
qed

lemma updateLeadCustomFields_world:
  assumes "build_payload leadId entries w = (w2, payload, errs)"
  shows "snd (updateLeadCustomFields leadId entries w) =
           (if payload = [] then w2 else snd (updateLead leadId payload w2))"
  using assms
  by (auto simp: updateLeadCustomFields_def split: prod.splits sum.splits)


lemma zNumber_world: "zod_infinite w' = zod_infinite w \<Longrightarrow> zNumber w' n = zNumber w n"
  by (cases n) simp_all

section \<open>The batch outcome\<close>

text \<open>
  C2 (as the code has it).  When the operation reports success, or when it made no update call
  at all, \<open>updatedFields\<close> is present and \<open>updatedFields\<close> plus the number of per-field errors
  is the number of input keys.  When the update call is made and returns a failure, the code
  reports \<open>updatedFields = 0\<close> on purpose, together with the errors of the loop, so that the
  sum is smaller than the number of keys.  When \<open>updateLead\<close> throws, which it does when its
  schema refuses the payload, neither member is reported.
\<close>

theorem totality_unless_update_fails:
  assumes "updateLeadCustomFields leadId entries w = (r, w')"
  shows "(success r \<or> update_calls w' = update_calls w \<longrightarrow>
            updatedFields r = Some (resolvedCount r) \<and>
            resolvedCount r + length (perFieldErrors r) = length entries) \<and>
         (\<not> success r \<and> update_calls w' \<noteq> update_calls w \<and>
          updateLeadDataSchema w (fst (snd (build_payload leadId entries w))) \<longrightarrow>
            updatedFields r = Some 0 \<and>
            perFieldErrors r = snd (snd (build_payload leadId entries w)) \<and>
            resolvedCount r + length (perFieldErrors r) < length entries) \<and>
         (update_calls w' \<noteq> update_calls w \<and>
          \<not> updateLeadDataSchema w (fst (snd (build_payload leadId entries w))) \<longrightarrow>
            \<not> success r \<and> updatedFields r = None \<and> errors r = None)"
proof -
  obtain w2 payload errs where b: "build_payload leadId entries w = (w2, payload, errs)"
    by (cases "build_payload leadId entries w") auto
  have total: "length payload + length errs = length entries"
    and uc: "update_calls w2 = update_calls w"
    and zi: "zod_infinite w2 = zod_infinite w"
    using build_payload_counts [OF b] by simp_all
  have schema: "updateLeadDataSchema w2 payload = updateLeadDataSchema w payload"
    by (simp add: updateLeadDataSchema_def zNumber_world [OF zi])
  show ?thesis
  proof (cases "payload = []")
    case True
    then show ?thesis
      using assms b total uc
      by (auto simp: updateLeadCustomFields_def resolvedCount_def perFieldErrors_def)
  next
    case False
    have w': "w' = snd (updateLead leadId payload w2)"
      using updateLeadCustomFields_world [OF b] assms False by simp
    then have called: "update_calls w' \<noteq> update_calls w"
      using uc by (simp add: updateLead_world)
    have first: "updatedFields r = Some (resolvedCount r) \<and>
                 resolvedCount r + length (perFieldErrors r) = length entries"
      if "success r"
      using that assms b False total
      by (auto simp: updateLeadCustomFields_def resolvedCount_def perFieldErrors_def
          errors_or_undefined_def split: prod.splits sum.splits if_splits)
    have less: "length errs < length entries"
      using total False by (cases payload) auto
    have second: "updatedFields r = Some 0 \<and> perFieldErrors r = errs \<and>
                  resolvedCount r + length (perFieldErrors r) < length entries"
      if "\<not> success r" "updateLeadDataSchema w payload"
    proof -
      have "updatedFields r = Some 0 \<and> perFieldErrors r = errs"
        using that assms b False schema
        by (auto simp: updateLeadCustomFields_def updateLead_def Let_def
            perFieldErrors_def errors_or_undefined_def
            split: prod.splits sum.splits if_splits response.splits option.splits)
      then show ?thesis
        using less by (simp add: resolvedCount_def)
    qed
    have third: "\<not> success r \<and> updatedFields r = None \<and> errors r = None"
      if "\<not> updateLeadDataSchema w payload"
      using that assms b False schema
      by (auto simp: updateLeadCustomFields_def updateLead_def Let_def)
    show ?thesis
      using first second third called by (auto simp: b)
  qed
qed

theorem totality_unless_update_fails_witness:
  "success (fst (updateLeadCustomFields 1 [(''City'', ''cali''), (''Phone'', ''123'')] world_ok)) \<and>
   resolvedCount (fst (updateLeadCustomFields 1 [(''City'', ''cali''), (''Phone'', ''123'')] world_ok)) = 1 \<and>
   length (perFieldErrors (fst (updateLeadCustomFields 1 [(''City'', ''cali''), (''Phone'', ''123'')] world_ok))) = 1"
proof -
  have s: "success (fst (updateLeadCustomFields 1 [(''City'', ''cali''), (''Phone'', ''123'')] world_ok))"
    by code_simp
  have n: "resolvedCount (fst (updateLeadCustomFields 1 [(''City'', ''cali''), (''Phone'', ''123'')] world_ok)) = 1"
    by code_simp
  have "resolvedCount (fst (updateLeadCustomFields 1 [(''City'', ''cali''), (''Phone'', ''123'')] world_ok)) +
        length (perFieldErrors (fst (updateLeadCustomFields 1 [(''City'', ''cali''), (''Phone'', ''123'')] world_ok))) =
        length [(''City'', ''cali''), (''Phone'', ''123'')]"
    using totality_unless_update_fails
      [of 1 "[(''City'', ''cali''), (''Phone'', ''123'')]" world_ok
          "fst (updateLeadCustomFields 1 [(''City'', ''cali''), (''Phone'', ''123'')] world_ok)"
          "snd (updateLeadCustomFields 1 [(''City'', ''cali''), (''Phone'', ''123'')] world_ok)"]
      s by simp
  then show ?thesis
    using s n by simp
qed

text \<open>
  C2 (as stated) fails when the update call fails: the key \<open>7\<close> is resolved and put into the
  payload, the \<open>PATCH\<close> request is answered with status 500, and the outcome carries
  \<open>updatedFields = 0\<close> and no error list, so that the sum is 0 for one input key.
\<close>

theorem totality_fails_when_update_fails:
  "resolvedCount (fst (updateLeadCustomFields 1 [(''7'', ''x'')] world_write_fails)) +
     length (perFieldErrors (fst (updateLeadCustomFields 1 [(''7'', ''x'')] world_write_fails)))
   \<noteq> length [(''7'', ''x'')]"
  by code_simp


text \<open>
  C3 (as the code has it).  \<open>getSelectFieldOptions\<close> fetches the metadata catalog itself, and it
  is called once for every entry that has a field id.  So the number of catalog requests of a
  batch is the number of payload entries plus the number of rejected select values, that is
  the number of input keys minus the number of \<open>Field not found\<close> errors; for a batch of
  numeric keys it is the number of keys.
\<close>

theorem metadata_fetched_once_per_resolved_entry:
  assumes "build_payload leadId entries w = (w2, payload, errs)"
  shows "meta_gets (snd (updateLeadCustomFields leadId entries w)) =
           meta_gets w + length payload + length (filter (\<lambda>x. \<not> is_not_found x) errs) \<and>
         meta_gets (snd (updateLeadCustomFields leadId entries w)) +
           length (filter is_not_found errs) = meta_gets w + length entries"
proof -
  have mg: "meta_gets (snd (updateLeadCustomFields leadId entries w)) = meta_gets w2"
    by (simp add: updateLeadCustomFields_world [OF assms] updateLead_world)
  have split: "length (filter is_not_found errs) + length (filter (\<lambda>x. \<not> is_not_found x) errs) =
               length errs"
    using sum_length_filter_compl [of is_not_found errs] by simp
  show ?thesis
    using build_payload_counts(1,2) [OF assms] mg split by simp
qed

theorem metadata_fetched_once_per_resolved_entry_witness:
  "meta_gets (snd (updateLeadCustomFields 1 [(''City'', ''cali''), (''Phone'', ''123'')] world_ok)) +
     length (filter is_not_found [not_found ''Phone'']) =
   meta_gets world_ok + length [(''City'', ''cali''), (''Phone'', ''123'')]"
proof -
  have e: "snd (snd (build_payload 1 [(''City'', ''cali''), (''Phone'', ''123'')] world_ok)) =
             [not_found ''Phone'']"
    by code_simp
  have b: "build_payload 1 [(''City'', ''cali''), (''Phone'', ''123'')] world_ok =
             (fst (build_payload 1 [(''City'', ''cali''), (''Phone'', ''123'')] world_ok),
              fst (snd (build_payload 1 [(''City'', ''cali''), (''Phone'', ''123'')] world_ok)),
              [not_found ''Phone''])"
    using e by (metis prod.collapse)
  show ?thesis
    using metadata_fetched_once_per_resolved_entry [OF b] by simp
qed

text \<open>
  C3 (as stated) fails: a batch of two numeric keys issues two catalog requests.
\<close>

theorem metadata_fetched_twice:
  "meta_gets (snd (updateLeadCustomFields 1 [(''501'', ''cali''), (''7'', ''x'')] world_ok)) =
     meta_gets world_ok + 2"
  by code_simp

text \<open>
  C4 (as the code has it).  An empty field map is not rejected up front.  The snapshot is
  requested first (one request when the lead id passes its schema), the loop has nothing to
  do, no catalog request and no update call are made, and the outcome is the failure
  \<open>No fields could be mapped to field IDs\<close> with no resolved field and an empty error list.
\<close>

theorem empty_batch:
  "updateLeadCustomFields leadId [] w =
     (\<lparr>success = False, updatedFields = Some 0, errors = Some [],
       error = Some [Str ''No fields could be mapped to field IDs'']\<rparr>,
      if positive_int leadId then w\<lparr>lead_gets := Suc (lead_gets w)\<rparr> else w)"
  using getLeadCustomFields_world [of leadId w]
  by (auto simp: updateLeadCustomFields_def build_payload_def split: prod.splits)

theorem empty_batch_witness:
  "updateLeadCustomFields 1 [] world_ok =
     (\<lparr>success = False, updatedFields = Some 0, errors = Some [],
       error = Some [Str ''No fields could be mapped to field IDs'']\<rparr>,
      world_ok\<lparr>lead_gets := Suc (lead_gets world_ok)\<rparr>)"
proof -
  have "positive_int 1"
    by (simp add: positive_int_def)
  then show ?thesis
    using empty_batch [of 1 world_ok] by simp
qed

text \<open>
  C4 (as stated) fails: the empty field map costs a snapshot request.
\<close>

theorem empty_batch_fetches_snapshot:
  "lead_gets (snd (updateLeadCustomFields 1 [] world_ok)) = lead_gets world_ok + 1"
  by code_simp

text \<open>
  C7.  The update call is \<open>updateLead\<close>.  After the loop it is made exactly once, with the whole
  payload, when the payload is not empty, and not at all when the payload is empty, in which
  case the outcome is a failure and no \<open>PATCH\<close> request is sent.  A batch never sends more than
  one \<open>PATCH\<close> request, and sends one, carrying the payload, whenever the payload is not empty
  and passes the schema of \<open>updateLead\<close>.
\<close>

theorem one_update_call_per_batch:
  assumes "build_payload leadId entries w = (w2, payload, errs)"
    and "updateLeadCustomFields leadId entries w = (r, w')"
  shows "update_calls w' = update_calls w @ (if payload \<noteq> [] then [payload] else []) \<and>
         (payload = [] \<longrightarrow> \<not> success r \<and> patches w' = patches w) \<and>
         (payload \<noteq> [] \<and> updateLeadDataSchema w payload \<longrightarrow> patches w' = patches w @ [payload]) \<and>
         length (patches w') \<le> length (patches w) + 1"
proof -
  have w': "w' = (if payload = [] then w2 else snd (updateLead leadId payload w2))"
    using updateLeadCustomFields_world [OF assms(1)] assms(2) by simp
  have frame: "update_calls w2 = update_calls w" "patches w2 = patches w"
    "zod_infinite w2 = zod_infinite w"
    using build_payload_counts(3,4,5) [OF assms(1)] by simp_all
  have schema: "updateLeadDataSchema w2 payload = updateLeadDataSchema w payload"
    by (simp add: updateLeadDataSchema_def zNumber_world [OF frame(3)])
  have fail: "payload = [] \<Longrightarrow> \<not> success r"
    using assms by (auto simp: updateLeadCustomFields_def)
  show ?thesis
    using w' frame schema fail by (auto simp: updateLead_world)
qed

theorem one_update_call_per_batch_witness:
  "update_calls (snd (updateLeadCustomFields 1 [(''City'', ''cali''), (''Phone'', ''123'')] world_ok)) =
     [ [\<lparr>pe_field_id = Num 501, pe_values = [\<lparr>fv_value = ''Cali'', fv_enum_id = Some 13\<rparr>]\<rparr>] ] \<and>
   patches (snd (updateLeadCustomFields 1 [(''City'', ''cali''), (''Phone'', ''123'')] world_ok)) =
     [ [\<lparr>pe_field_id = Num 501, pe_values = [\<lparr>fv_value = ''Cali'', fv_enum_id = Some 13\<rparr>]\<rparr>] ]"
proof -
  have p: "fst (snd (build_payload 1 [(''City'', ''cali''), (''Phone'', ''123'')] world_ok)) =
             [\<lparr>pe_field_id = Num 501,
               pe_values = [\<lparr>fv_value = ''Cali'', fv_enum_id = Some 13\<rparr>]\<rparr>]"
    by code_simp
  have b: "build_payload 1 [(''City'', ''cali''), (''Phone'', ''123'')] world_ok =
             (fst (build_payload 1 [(''City'', ''cali''), (''Phone'', ''123'')] world_ok),
              [\<lparr>pe_field_id = Num 501,
                pe_values = [\<lparr>fv_value = ''Cali'', fv_enum_id = Some 13\<rparr>]\<rparr>],
              snd (snd (build_payload 1 [(''City'', ''cali''), (''Phone'', ''123'')] world_ok)))"
    using p by (metis prod.collapse)
  have s: "updateLeadDataSchema world_ok
             [\<lparr>pe_field_id = Num 501,
               pe_values = [\<lparr>fv_value = ''Cali'', fv_enum_id = Some 13\<rparr>]\<rparr>]"
    by (simp add: updateLeadDataSchema_def)
  have u: "update_calls world_ok = []" "patches world_ok = []"
    by (simp_all add: world_ok_def)
  show ?thesis
    using one_update_call_per_batch [OF b surjective_pairing] s u by simp
qed


section \<open>The option matcher\<close>

lemma exact_for_matches_any: "exact_for val opt \<Longrightarrow> matches_any val opt"
  by (simp add: exact_for_def matches_any_def option_matches_def)

lemma find_first:
  "P x \<Longrightarrow> \<forall>p\<in>set pre. \<not> P p \<Longrightarrow> find P (pre @ x # post) = Some x"
  by (induction pre) auto

lemma find_SomeD: "find P xs = Some x \<Longrightarrow> x \<in> set xs \<and> P x"
  by (induction xs) (auto split: if_splits)

lemma find_option_first:
  "matches_any val opt \<Longrightarrow> \<forall>p\<in>set pre. \<not> matches_any val p \<Longrightarrow>
     find_option val (pre @ opt # post) = Some opt"
  unfolding find_option_def Let_def matches_any_def by (rule find_first)

text \<open>
  C1 (as the code has it).  The matcher is one \<open>find\<close> whose callback tries every rule on one
  option before it goes to the next option.  An option that is an exact match, or a match by
  any rule, is returned when no option listed before it (in the sorted option list) satisfies
  any rule.
\<close>

theorem first_matching_option_wins:
  assumes "\<forall>p\<in>set pre. \<not> matches_any val p"
  shows "(exact_for val opt \<longrightarrow> find_option val (pre @ opt # post) = Some opt) \<and>
         (matches_any val opt \<longrightarrow> find_option val (pre @ opt # post) = Some opt)"
  using assms find_option_first exact_for_matches_any by blast

theorem first_matching_option_wins_witness:
  "exact_for ''CALI'' (to_option cali) \<and>
   find_option ''CALI'' ([to_option bogota_norte, to_option bogota] @ to_option cali # []) =
     Some (to_option cali)"
proof -
  have none: "\<forall>p\<in>set [to_option bogota_norte, to_option bogota]. \<not> matches_any ''CALI'' p"
    by code_simp
  have exact: "exact_for ''CALI'' (to_option cali)"
    by code_simp
  show ?thesis
    using first_matching_option_wins [OF none, of "to_option cali" "[]"] exact by simp
qed

text \<open>
  C1 (as stated) fails.  Field 501 lists \<open>Bogota Norte\<close> (sort 1) before \<open>Bogota\<close> (sort 2).
  For the value \<open>bogota\<close> the second option is an exact match, yet the matcher returns the
  first one, which only contains the value.
\<close>

theorem later_exact_match_loses:
  "or_options (fst (getSelectFieldOptions (Num 501) world_ok)) =
     Some [to_option bogota_norte, to_option bogota, to_option cali] \<and>
   exact_for ''bogota'' (to_option bogota) \<and>
   \<not> exact_for ''bogota'' (to_option bogota_norte) \<and>
   find_option ''bogota'' [to_option bogota_norte, to_option bogota, to_option cali] =
     Some (to_option bogota_norte) \<and>
   to_option bogota_norte \<noteq> to_option bogota"
  by code_simp

section \<open>Resolving a key\<close>

text \<open>
  C5.  A key that \<open>Number\<close> parses (every integer key in particular) is not searched for: the
  world is left as it is, whatever the snapshot and the name map hold, the field id is the
  parsed number, and the entry is processed with that number as the literal id.
\<close>

theorem numeric_key_is_literal_id:
  assumes "numeric_key fieldKey"
  shows "resolve_key leadId nameToIdMap fieldKey w = (Some (js_Number fieldKey), w) \<and>
         process_entry leadId nameToIdMap (fieldKey, val) (w, p, e) =
           add_field fieldKey val (js_Number fieldKey) (w, p, e) \<and>
         (\<forall>x. fst (snd (process_entry leadId nameToIdMap (fieldKey, val) (w, p, e))) = p @ [x]
               \<longrightarrow> pe_field_id x = js_Number fieldKey)"
proof -
  have n: "\<not> isNaN (js_Number fieldKey)"
    using assms by (simp add: numeric_key_def)
  have pe: "process_entry leadId nameToIdMap (fieldKey, val) (w, p, e) =
              add_field fieldKey val (js_Number fieldKey) (w, p, e)"
    by (rule process_entry_numeric [OF n])
  have "pe_field_id x = js_Number fieldKey"
    if "fst (snd (add_field fieldKey val (js_Number fieldKey) (w, p, e))) = p @ [x]" for x
    using add_field_outcome [of fieldKey val "js_Number fieldKey" w p e] that
    by (cases "add_field fieldKey val (js_Number fieldKey) (w, p, e)") auto
  then show ?thesis
    using n pe by (simp add: resolve_key_numeric)
qed

theorem numeric_key_is_literal_id_witness:
  "name_matches (toLowerCase ''123'') street \<and>
   resolve_key 1 (build_nameToIdMap (fst (getLeadCustomFields 1 world_ok))) ''123'' world_ok =
     (Some (Num 123), world_ok)"
proof -
  have k: "numeric_key ''123''"
    by code_simp
  have n: "js_Number ''123'' = Num 123"
    by code_simp
  have m: "name_matches (toLowerCase ''123'') street"
    by code_simp
  show ?thesis
    using numeric_key_is_literal_id
      [OF k, of 1 "build_nameToIdMap (fst (getLeadCustomFields 1 world_ok))" world_ok] n m
    by simp
qed

lemma add_names_Some:
  "add_names m f k = Some v \<Longrightarrow> m k = Some v \<or> v = field_id f"
  by (auto simp: add_names_def Let_def split: option.splits if_splits)

lemma foldl_add_names_Some:
  "foldl add_names m cs k = Some v \<Longrightarrow> m k = Some v \<or> (\<exists>f\<in>set cs. field_id f = v)"
proof (induction cs arbitrary: m)
  case Nil
  then show ?case by simp
next
  case (Cons c cs)
  then have "add_names m c k = Some v \<or> (\<exists>f\<in>set cs. field_id f = v)"
    by simp
  then show ?case
    using add_names_Some [of m c k v] by auto
qed

lemma build_nameToIdMap_Some:
  assumes "build_nameToIdMap existingFields k = Some v"
  shows "\<exists>f\<in>set (snapshot_of existingFields). field_id f = v"
  using assms foldl_add_names_Some [of Map.empty _ k v]
  by (auto simp: build_nameToIdMap_def snapshot_of_def split: option.splits bool.splits)

lemma searchLeadCustomField_field:
  assumes "searchLeadCustomField leadId searchTerm w = (searchResult, w')"
    and "sr_field searchResult = Some f"
  shows "f \<in> set (snapshot_of (fst (getLeadCustomFields leadId w)))"
  using assms
  by (auto simp: searchLeadCustomField_def snapshot_of_def Let_def
      split: prod.splits option.splits bool.splits if_splits dest: find_SomeD)

lemma snapshot_of_response:
  assumes "f \<in> set (snapshot_of (fst (getLeadCustomFields leadId w)))"
  shows "\<exists>lead cs. lead_resp w (lead_gets w) = Returns (Some lead) \<and>
           custom_fields_values lead = Some cs \<and> f \<in> set cs"
  using assms
  by (auto simp: snapshot_of_def getLeadCustomFields_def getLead_def request_lead_def
      split: prod.splits sum.splits option.splits bool.splits if_splits response.splits)

lemma resolve_key_origin:
  assumes "\<not> numeric_key fieldKey"
    and "resolve_key leadId (build_nameToIdMap existingFields) fieldKey w = (Some n, w')"
  shows "\<exists>f. n = Num (field_id f) \<and>
           (f \<in> set (snapshot_of (fst (getLeadCustomFields leadId w))) \<or>
            f \<in> set (snapshot_of existingFields))"
proof -
  obtain searchResult w1 where s: "searchLeadCustomField leadId fieldKey w = (searchResult, w1)"
    by (cases "searchLeadCustomField leadId fieldKey w")
  show ?thesis
  proof (cases "sr_success searchResult \<and> sr_field searchResult \<noteq> None")
    case True
    then obtain f where f: "sr_field searchResult = Some f"
      by auto
    then have "n = Num (field_id f)"
      using assms s True by (simp add: resolve_key_def numeric_key_def)
    then show ?thesis
      using searchLeadCustomField_field [OF s f] by blast
  next
    case False
    then have "map_option Num (build_nameToIdMap existingFields (toLowerCase fieldKey)) = Some n"
      using assms s
      by (auto simp: resolve_key_def numeric_key_def split: option.splits bool.splits)
    then obtain r where "build_nameToIdMap existingFields (toLowerCase fieldKey) = Some r" "n = Num r"
      by auto
    then show ?thesis
      using build_nameToIdMap_Some by blast
  qed
qed

text \<open>
  C8 (as the code has it).  A field id is never checked for being a positive integer.  In
  every iteration of the loop that adds a payload entry, the field id of the entry is
  \<open>Number(key)\<close> as it stands when the key is numeric.  Otherwise it is the \<open>field_id\<close>,
  not zero, of a field listed in a lead that a snapshot request returned: the request that
  \<open>searchLeadCustomField\<close> makes for this key, or the request before the loop, from which
  \<open>nameToIdMap\<close> was built.
\<close>

theorem payload_field_id_origin:
  assumes "process_entry leadId (build_nameToIdMap (fst (getLeadCustomFields leadId w0)))
             (fieldKey, val) (w, p, e) = (w', p', e')"
    and "p' \<noteq> p"
  shows "\<exists>x. p' = p @ [x] \<and>
           (if numeric_key fieldKey then pe_field_id x = js_Number fieldKey
            else \<exists>f lead cs.
                   pe_field_id x = Num (field_id f) \<and> field_id f \<noteq> 0 \<and>
                   custom_fields_values lead = Some cs \<and> f \<in> set cs \<and>
                   (lead_resp w (lead_gets w) = Returns (Some lead) \<or>
                    lead_resp w0 (lead_gets w0) = Returns (Some lead)))"
proof -
  let ?m = "build_nameToIdMap (fst (getLeadCustomFields leadId w0))"
  obtain x where x: "p' = p @ [x]"
    and num: "numeric_key fieldKey \<Longrightarrow> pe_field_id x = js_Number fieldKey"
    and name: "\<not> numeric_key fieldKey \<Longrightarrow> \<exists>r. pe_field_id x = Num r \<and> r \<noteq> 0"
    using process_entry_outcome [OF assms(1)] assms(2) by (auto simp: numeric_key_def)
  show ?thesis
  proof (cases "numeric_key fieldKey")
    case True
    then show ?thesis using x num by simp
  next
    case False
    obtain fid w1 where rk: "resolve_key leadId ?m fieldKey w = (fid, w1)"
      by (cases "resolve_key leadId ?m fieldKey w")
    have t: "truthy fid"
    proof (rule ccontr)
      assume "\<not> truthy fid"
      then have "p' = p"
        using assms(1) rk False by (auto simp: process_entry_def numeric_key_def)
      then show False using assms(2) by simp
    qed
    then obtain n where n: "fid = Some n"
      using truthy_Some by blast
    have af: "add_field fieldKey val n (w1, p, e) = (w', p', e')"
      using assms(1) rk t n by (simp add: process_entry_def)
    have id: "pe_field_id x = n"
      using add_field_outcome [OF af] x assms(2) by auto
    obtain f where f: "n = Num (field_id f)"
      and origin: "f \<in> set (snapshot_of (fst (getLeadCustomFields leadId w))) \<or>
                   f \<in> set (snapshot_of (fst (getLeadCustomFields leadId w0)))"
      using resolve_key_origin [OF False] rk n by blast
    have nz: "field_id f \<noteq> 0"
      using t n f by simp
    obtain lead cs where "custom_fields_values lead = Some cs" "f \<in> set cs"
      "lead_resp w (lead_gets w) = Returns (Some lead) \<or>
       lead_resp w0 (lead_gets w0) = Returns (Some lead)"
      using origin snapshot_of_response [of f leadId w] snapshot_of_response [of f leadId w0]
      by blast
    then show ?thesis
      using x False id f nz by auto
  qed
qed

theorem payload_field_id_origin_witness:
  "\<not> numeric_key ''City'' \<and>
   fst (snd (process_entry 1 (build_nameToIdMap (fst (getLeadCustomFields 1 world_ok)))
               (''City'', ''cali'') (snd (getLeadCustomFields 1 world_ok), [], []))) =
     [\<lparr>pe_field_id = Num 501, pe_values = [\<lparr>fv_value = ''Cali'', fv_enum_id = Some 13\<rparr>]\<rparr>] \<and>
   field_id city = 501 \<and>
   lead_resp world_ok (lead_gets world_ok) = Returns (Some lead1) \<and>
   custom_fields_values lead1 = Some [city, street] \<and>
   (\<exists>x. fst (snd (process_entry 1 (build_nameToIdMap (fst (getLeadCustomFields 1 world_ok)))
               (''City'', ''cali'') (snd (getLeadCustomFields 1 world_ok), [], []))) = [] @ [x] \<and>
        (\<exists>f lead cs.
            pe_field_id x = Num (field_id f) \<and> field_id f \<noteq> 0 \<and>
            custom_fields_values lead = Some cs \<and> f \<in> set cs \<and>
            (lead_resp (snd (getLeadCustomFields 1 world_ok))
               (lead_gets (snd (getLeadCustomFields 1 world_ok))) = Returns (Some lead) \<or>
             lead_resp world_ok (lead_gets world_ok) = Returns (Some lead))))"
proof -
  let ?b = "process_entry 1 (build_nameToIdMap (fst (getLeadCustomFields 1 world_ok)))
              (''City'', ''cali'') (snd (getLeadCustomFields 1 world_ok), [], [])"
  have k: "\<not> numeric_key ''City''"
    by code_simp
  have p: "fst (snd ?b) =
             [\<lparr>pe_field_id = Num 501, pe_values = [\<lparr>fv_value = ''Cali'', fv_enum_id = Some 13\<rparr>]\<rparr>]"
    by code_simp
  have ne: "fst (snd ?b) \<noteq> []"
    using p by simp
  have b: "?b = (fst ?b, fst (snd ?b), snd (snd ?b))"
    by simp
  have d: "field_id city = 501" "lead_resp world_ok (lead_gets world_ok) = Returns (Some lead1)"
    "custom_fields_values lead1 = Some [city, street]"
    by (simp_all add: city_def world_ok_def lead1_def)
  show ?thesis
    using payload_field_id_origin [OF b ne] k p d by simp
qed

text \<open>
  C8 (as stated) fails: the keys \<open>0\<close>, \<open>-5\<close> and \<open>1.5\<close> are passed on as the field ids
  0, -5 and 3/2.
\<close>

theorem field_id_not_positive_integer:
  "update_calls (snd (updateLeadCustomFields 1 [(''0'', ''x''), (''-5'', ''y''), (''1.5'', ''z'')] world_ok)) =
     [ [free_text (Num 0) ''x'', free_text (Num (- 5)) ''y'', free_text (Num (3 / 2)) ''z''] ]"
  by code_simp


section \<open>The options lookup\<close>

lemma set_insert_option: "set (insert_option w x xs) = insert x (set xs)"
  by (induction xs) auto

lemma set_sort_options: "set (sort_options w xs) = set xs"
  unfolding sort_options_def by (induction xs) (simp_all add: set_insert_option)

lemma getSelectFieldOptions_Returns:
  assumes "meta_resp w (meta_gets w) = Returns (Some defs)"
  shows "fst (getSelectFieldOptions fieldId w) =
     (case find (\<lambda>f. strict_eq (fd_id f) fieldId) (filter has_enums defs) of
        None \<Rightarrow>
          \<lparr>or_success = False, or_fieldId = fieldId, or_fieldName = None,
            or_fieldCode = None, or_fieldType = None, or_options = None,
            or_error = Some [Str ''Field with ID '', NumPart fieldId,
                             Str '' not found in custom fields metadata'']\<rparr>
      | Some field \<Rightarrow>
          if fd_type field \<noteq> ''select'' \<and> fd_type field \<noteq> ''multiselect''
          then
            \<lparr>or_success = False, or_fieldId = fieldId, or_fieldName = Some (fd_name field),
              or_fieldCode = fd_code field, or_fieldType = Some (fd_type field),
              or_options = None,
              or_error = Some [Str ''Field '', Str [CHR 0x22], Str (fd_name field),
                               Str [CHR 0x22], Str '' is not a select field (type: '',
                               Str (fd_type field), Str '')'']\<rparr>
          else
            (let options = sort_options (w\<lparr>meta_gets := Suc (meta_gets w)\<rparr>)
                   (case fd_enums field of Some es \<Rightarrow> map to_option es | None \<Rightarrow> [])
             in \<lparr>or_success = True, or_fieldId = fieldId,
                  or_fieldName = Some (fd_name field), or_fieldCode = fd_code field,
                  or_fieldType = Some (fd_type field),
                  or_options = (if options \<noteq> [] then Some options else None),
                  or_error = None\<rparr>))"
  using assms
  by (simp add: getSelectFieldOptions_def getLeadCustomFieldsMetadata_def request_metadata_def
      Let_def split: option.splits)

lemma getSelectFieldOptions_no_list:
  assumes "\<forall>defs. meta_resp w (meta_gets w) \<noteq> Returns (Some defs)"
  shows "\<not> or_success (fst (getSelectFieldOptions fieldId w))"
  using assms
  by (auto simp: getSelectFieldOptions_def getLeadCustomFieldsMetadata_def request_metadata_def
      split: response.splits option.splits)

lemma getSelectFieldOptions_success:
  assumes "or_success (fst (getSelectFieldOptions fieldId w))"
  shows "\<exists>defs field.
           meta_resp w (meta_gets w) = Returns (Some defs) \<and>
           find (\<lambda>f. strict_eq (fd_id f) fieldId) (filter has_enums defs) = Some field \<and>
           (fd_type field = ''select'' \<or> fd_type field = ''multiselect'') \<and>
           or_options (fst (getSelectFieldOptions fieldId w)) =
             (let options = sort_options (w\<lparr>meta_gets := Suc (meta_gets w)\<rparr>)
                    (case fd_enums field of Some es \<Rightarrow> map to_option es | None \<Rightarrow> [])
              in if options \<noteq> [] then Some options else None)"
proof -
  obtain defs where resp: "meta_resp w (meta_gets w) = Returns (Some defs)"
    using assms getSelectFieldOptions_no_list by blast
  note eq = getSelectFieldOptions_Returns [OF resp, of fieldId]
  show ?thesis
  proof (cases "find (\<lambda>f. strict_eq (fd_id f) fieldId) (filter has_enums defs)")
    case None
    then show ?thesis using assms eq by simp
  next
    case (Some field)
    show ?thesis
    proof (cases "fd_type field \<noteq> ''select'' \<and> fd_type field \<noteq> ''multiselect''")
      case True
      then show ?thesis using assms eq Some by simp
    next
      case False
      then show ?thesis using resp eq Some by (auto simp: Let_def)
    qed
  qed
qed



text \<open>
  C6.  When the lookup succeeds and the matcher finds an option, the payload entry appended
  for the field carries the value and the enum id of that option, and the pair is the
  \<open>value\<close> and \<open>id\<close> of one of the enums that the metadata response lists for a field with
  this id; the caller's text is not used.
\<close>

theorem matched_option_is_canonical:
  assumes "getSelectFieldOptions fieldId w = (optionsResult, w1)"
    and "or_success optionsResult"
    and "or_options optionsResult = Some options"
    and "find_option val options = Some matchedOption"
  shows "add_field fieldKey val fieldId (w, p, e) =
           (w1,
            p @ [\<lparr>pe_field_id = fieldId,
                  pe_values = [\<lparr>fv_value = opt_value matchedOption,
                                fv_enum_id = Some (opt_enum_id matchedOption)\<rparr>]\<rparr>],
            e) \<and>
         (\<exists>defs field enums enumData.
            meta_resp w (meta_gets w) = Returns (Some defs) \<and> field \<in> set defs \<and>
            strict_eq (fd_id field) fieldId \<and> fd_enums field = Some enums \<and>
            enumData \<in> set enums \<and> opt_value matchedOption = enum_value enumData \<and>
            opt_enum_id matchedOption = enum_id enumData)"
proof -
  have m: "matchedOption \<in> set options"
    using assms(4) find_SomeD by (fastforce simp: find_option_def Let_def)
  then obtain opt opts where ne: "options = opt # opts"
    by (cases options) auto
  have first: "add_field fieldKey val fieldId (w, p, e) =
           (w1,
            p @ [\<lparr>pe_field_id = fieldId,
                  pe_values = [\<lparr>fv_value = opt_value matchedOption,
                                fv_enum_id = Some (opt_enum_id matchedOption)\<rparr>]\<rparr>],
            e)"
    using assms ne by (simp add: add_field_def)
  have s: "or_success (fst (getSelectFieldOptions fieldId w))"
    using assms(1,2) by simp
  obtain defs field where
    resp: "meta_resp w (meta_gets w) = Returns (Some defs)" and
    found: "find (\<lambda>f. strict_eq (fd_id f) fieldId) (filter has_enums defs) = Some field" and
    opts: "or_options (fst (getSelectFieldOptions fieldId w)) =
             (let options = sort_options (w\<lparr>meta_gets := Suc (meta_gets w)\<rparr>)
                    (case fd_enums field of Some es \<Rightarrow> map to_option es | None \<Rightarrow> [])
              in if options \<noteq> [] then Some options else None)"
    using getSelectFieldOptions_success [OF s] by blast
  have field: "field \<in> set defs" "strict_eq (fd_id field) fieldId"
    using find_SomeD [OF found] by simp_all
  have "options = sort_options (w\<lparr>meta_gets := Suc (meta_gets w)\<rparr>)
                    (case fd_enums field of Some es \<Rightarrow> map to_option es | None \<Rightarrow> [])"
    using opts assms(1,3) by (simp add: Let_def split: if_splits)
  then have "matchedOption \<in> set (case fd_enums field of Some es \<Rightarrow> map to_option es | None \<Rightarrow> [])"
    using m by (simp add: set_sort_options)
  then obtain enums enumData where
    "fd_enums field = Some enums" "enumData \<in> set enums" "matchedOption = to_option enumData"
    by (cases "fd_enums field") auto
  then have "fd_enums field = Some enums \<and> enumData \<in> set enums \<and>
             opt_value matchedOption = enum_value enumData \<and>
             opt_enum_id matchedOption = enum_id enumData"
    by (simp add: to_option_def)
  then show ?thesis
    using first resp field by blast
qed

theorem matched_option_is_canonical_witness:
  "fst (snd (add_field ''City'' ''BOGOTA  norte!'' (Num 501) (world_ok, [], []))) =
     [\<lparr>pe_field_id = Num 501,
       pe_values = [\<lparr>fv_value = ''Bogota Norte'', fv_enum_id = Some 11\<rparr>]\<rparr>]"
proof -
  let ?r = "getSelectFieldOptions (Num 501) world_ok"
  have g: "?r = (fst ?r, snd ?r)"
    by simp
  have s: "or_success (fst ?r)"
    by code_simp
  have opts: "or_options (fst ?r) = Some [to_option bogota_norte, to_option bogota, to_option cali]"
    by code_simp
  have f: "find_option ''BOGOTA  norte!'' [to_option bogota_norte, to_option bogota, to_option cali] =
             Some (to_option bogota_norte)"
    by code_simp
  show ?thesis
    using matched_option_is_canonical [OF g s opts f, of "''City''" "[]" "[]"]
    by (simp add: to_option_def bogota_norte_def)
qed




section \<open>A snapshot that cannot be fetched\<close>
























end
